theory Spec2Isabelle
  imports Main
begin

section \<open>RfControl: mechanical RF attenuator control (rfcontrol.py)\<close>

text \<open>
  A shallow embedding of \<^verbatim>\<open>src/rfcontrol.py\<close>. The program talks to attenuators through
  the VISA library, which is not part of the repository: the library and the devices behind
  it are an explicit world that every operation takes and returns. Python exceptions are
  the left summand of the result; a Python dict is an association list in insertion order
  (the order Python 3.7 and later keep), with unique keys.
\<close>

subsection \<open>Python values the program uses\<close>

datatype exn =
    NameError string
  | ValueError
  | KeyError
  | VisaIOError
  | InvalidSession

text \<open>\<^verbatim>\<open>sub in s\<close> on strings: \<^verbatim>\<open>sub\<close> occurs in \<^verbatim>\<open>s\<close> as a contiguous run.\<close>

fun starts_with :: "string \<Rightarrow> string \<Rightarrow> bool" where
  "starts_with [] s = True"
| "starts_with (a # sub) [] = False"
| "starts_with (a # sub) (c # s) = (a = c \<and> starts_with sub s)"

fun str_in :: "string \<Rightarrow> string \<Rightarrow> bool" where
  "str_in sub [] = (sub = [])"
| "str_in sub (c # s) = (starts_with sub (c # s) \<or> str_in sub s)"

text \<open>\<^verbatim>\<open>xs.index(x)\<close>: the first position of \<^verbatim>\<open>x\<close>; Python raises ValueError when there is none.\<close>

fun list_index :: "'a list \<Rightarrow> 'a \<Rightarrow> nat option" where
  "list_index [] x = None"
| "list_index (y # ys) x = (if y = x then Some 0 else map_option Suc (list_index ys x))"

text \<open>\<^verbatim>\<open>'%d' % n\<close> for a natural number.\<close>

definition digit_char :: "nat \<Rightarrow> char" where
  "digit_char d = ''0123456789'' ! d"

fun str_of_nat :: "nat \<Rightarrow> string" where
  "str_of_nat n = (if n < 10 then [digit_char n] else str_of_nat (n div 10) @ [digit_char (n mod 10)])"

declare str_of_nat.simps [simp del]

text \<open>\<^verbatim>\<open>s.split(',')\<close>: always at least one token, empty tokens kept.\<close>

fun split_comma :: "string \<Rightarrow> string list" where
  "split_comma [] = [[]]"
| "split_comma (c # s) =
     (if c = CHR '','' then [] # split_comma s
      else (case split_comma s of [] \<Rightarrow> [[c]] | t # ts \<Rightarrow> (c # t) # ts))"

text \<open>\<^verbatim>\<open>d[k] = v\<close> on a dict: an existing key keeps its place, a new key goes last.\<close>

fun dict_set :: "('k \<times> 'v) list \<Rightarrow> 'k \<Rightarrow> 'v \<Rightarrow> ('k \<times> 'v) list" where
  "dict_set [] k v = [(k, v)]"
| "dict_set ((k', v') # d) k v = (if k' = k then (k, v) # d else (k', v') # dict_set d k v)"

subsection \<open>The VISA world\<close>

text \<open>
  A session is what \<^verbatim>\<open>open_resource\<close> returns; its handle is its position in the world's
  session list. The two settings are \<^verbatim>\<open>None\<close> until the program writes them. The devices
  are kept by address, so two sessions on one address share one device. \<^verbatim>\<open>wire\<close> records
  every command written, with the handle it was written to.
\<close>

record session =
  resource_name :: string
  is_open :: bool
  read_termination :: "string option"
  timeout :: "int option"

record 'd world =
  list_resources :: "exn + string list"
  devices :: "string \<Rightarrow> 'd option"
  sessions :: "session list"
  mgr_open :: bool
  wire :: "(nat \<times> string) list"

text \<open>
  What the program is run on: how a device answers a command line (an exception stands for
  a timeout or a channel failure), Python's \<^verbatim>\<open>float(s)\<close> (\<^verbatim>\<open>None\<close> is its ValueError) and
  \<^verbatim>\<open>'{:f}'.format(x)\<close>.
\<close>

record ('d, 'f) platform =
  respond :: "'d \<Rightarrow> string \<Rightarrow> (exn + string) \<times> 'd"
  pyfloat :: "string \<Rightarrow> 'f option"
  format_f :: "'f \<Rightarrow> string"

definition open_resource :: "string \<Rightarrow> 'd world \<Rightarrow> (exn + nat) \<times> 'd world" where
  "open_resource a w =
     (case devices w a of
        None \<Rightarrow> (Inl VisaIOError, w)
      | Some d \<Rightarrow>
          (Inr (length (sessions w)),
           w\<lparr>sessions := sessions w @
                [\<lparr>resource_name = a, is_open = True, read_termination = None, timeout = None\<rparr>]\<rparr>))"

definition query ::
  "('d \<Rightarrow> string \<Rightarrow> (exn + string) \<times> 'd) \<Rightarrow> nat \<Rightarrow> string \<Rightarrow> 'd world \<Rightarrow> (exn + string) \<times> 'd world" where
  "query rsp h cmd w =
     (if h < length (sessions w) \<and> is_open (sessions w ! h) then
        (case devices w (resource_name (sessions w ! h)) of
           None \<Rightarrow> (Inl VisaIOError, w\<lparr>wire := wire w @ [(h, cmd)]\<rparr>)
         | Some d \<Rightarrow>
             (case rsp d cmd of
                (r, d') \<Rightarrow>
                  (r, w\<lparr>devices := (devices w)(resource_name (sessions w ! h) \<mapsto> d'),
                        wire := wire w @ [(h, cmd)]\<rparr>)))
      else (Inl InvalidSession, w))"

subsection \<open>The module function\<close>

definition get_acm_ctrl_list :: "string list \<Rightarrow> string list" where
  "get_acm_ctrl_list interfaces_list = filter (\<lambda>elem. str_in ''ACM'' elem) interfaces_list"

subsection \<open>class RfControl\<close>

record rfcontrol =
  resource_names :: "string list"
  instruments :: "(string \<times> nat) list"
  att_values_allowed :: "(string \<times> string list) list"

text \<open>
  The dict comprehension of line 36: for each address in turn, the key
  \<^verbatim>\<open>'att%d' % self.resource_names.index(ins)\<close>, then the opened session, stored under the key.
  The first open that fails ends the comprehension with its exception.
\<close>

fun open_instruments ::
  "string list \<Rightarrow> string list \<Rightarrow> (string \<times> nat) list \<Rightarrow> 'd world
     \<Rightarrow> (exn + (string \<times> nat) list) \<times> 'd world" where
  "open_instruments names [] acc w = (Inr acc, w)"
| "open_instruments names (ins # rest) acc w =
     (case list_index names ins of
        None \<Rightarrow> (Inl ValueError, w)
      | Some i \<Rightarrow>
          (case open_resource ins w of
             (Inl e, w') \<Rightarrow> (Inl e, w')
           | (Inr h, w') \<Rightarrow>
               open_instruments names rest (dict_set acc (''att'' @ str_of_nat i) h) w'))"

text \<open>Lines 40 to 42: the two settings, written to every session of the dict.\<close>

fun apply_settings :: "nat list \<Rightarrow> string \<Rightarrow> int \<Rightarrow> 'd world \<Rightarrow> 'd world" where
  "apply_settings [] line_termination tmo w = w"
| "apply_settings (unit # units) line_termination tmo w =
     apply_settings units line_termination tmo
       (w\<lparr>sessions := (sessions w)[unit :=
             (sessions w ! unit)\<lparr>read_termination := Some line_termination, timeout := Some tmo\<rparr>]\<rparr>)"

text \<open>Line 45: one table query per entry of the dict, in its order; the first failure ends it.\<close>

fun query_allowed ::
  "('d \<Rightarrow> string \<Rightarrow> (exn + string) \<times> 'd) \<Rightarrow> (string \<times> nat) list \<Rightarrow> (string \<times> string list) list
     \<Rightarrow> 'd world \<Rightarrow> (exn + (string \<times> string list) list) \<times> 'd world" where
  "query_allowed rsp [] acc w = (Inr acc, w)"
| "query_allowed rsp ((name, ins) # items) acc w =
     (case query rsp ins ''ATT:ATTTabGet?'' w of
        (Inl e, w') \<Rightarrow> (Inl e, w')
      | (Inr r, w') \<Rightarrow> query_allowed rsp items (dict_set acc name (split_comma r)) w')"

text \<open>
  The constructor. Creating the resource manager is taken to succeed; every later step
  that can raise has its branch.
\<close>

definition RfControl ::
  "('d, 'f) platform \<Rightarrow> int \<Rightarrow> string \<Rightarrow> 'd world \<Rightarrow> (exn + rfcontrol) \<times> 'd world" where
  "RfControl P tmo line_termination w0 =
     (let w = w0\<lparr>mgr_open := True\<rparr> in
      case list_resources w of
        Inl e \<Rightarrow> (Inl e, w)
      | Inr rs \<Rightarrow>
          (let names = get_acm_ctrl_list rs in
           if names = [] then
             (Inl (NameError ''No ACM resources found, please check your devices connection''), w)
           else
             (case open_instruments names names [] w of
                (Inl e, w1) \<Rightarrow> (Inl e, w1)
              | (Inr ins, w1) \<Rightarrow>
                  (case query_allowed (respond P) ins []
                          (apply_settings (map snd ins) line_termination tmo w1) of
                     (Inl e, w3) \<Rightarrow> (Inl e, w3)
                   | (Inr allowed, w3) \<Rightarrow>
                       (Inr \<lparr>resource_names = names, instruments = ins,
                             att_values_allowed = allowed\<rparr>, w3)))))"

definition default_timeout :: int where
  "default_timeout = 1000"

definition default_line_termination :: string where
  "default_line_termination = [CHR 0x0D, CHR 0x0A]"

definition get_instrument_names :: "rfcontrol \<Rightarrow> string list" where
  "get_instrument_names self = map fst (instruments self)"

definition get_available_gain_values :: "rfcontrol \<Rightarrow> (string \<times> string list) list" where
  "get_available_gain_values self = att_values_allowed self"

text \<open>\<^verbatim>\<open>float(ins.query(cmd))\<close>: the query, then the conversion of its answer.\<close>

definition query_float ::
  "('d, 'f) platform \<Rightarrow> nat \<Rightarrow> string \<Rightarrow> 'd world \<Rightarrow> (exn + 'f) \<times> 'd world" where
  "query_float P ins cmd w =
     (case query (respond P) ins cmd w of
        (Inl e, w') \<Rightarrow> (Inl e, w')
      | (Inr r, w') \<Rightarrow>
          (case pyfloat P r of
             None \<Rightarrow> (Inl ValueError, w')
           | Some x \<Rightarrow> (Inr x, w')))"

text \<open>
  The four operations return the triple (status, att_val, msg). \<^verbatim>\<open>map_of\<close> on the dict is
  both the test \<^verbatim>\<open>instrument_name in self.instruments.keys()\<close> and the lookup
  \<^verbatim>\<open>self.instruments[instrument_name]\<close> that follows it. An exception leaves the operation
  before its \<^verbatim>\<open>return\<close>: there is no handler anywhere in the class.
\<close>

type_synonym 'f triple = "bool \<times> 'f option \<times> string"

definition get_att_value ::
  "('d, 'f) platform \<Rightarrow> rfcontrol \<Rightarrow> string \<Rightarrow> 'd world \<Rightarrow> (exn + 'f triple) \<times> 'd world" where
  "get_att_value P self instrument_name w =
     (case map_of (instruments self) instrument_name of
        Some ins \<Rightarrow>
          (case query_float P ins ''ATT:ATTGetCurVal?'' w of
             (Inl e, w') \<Rightarrow> (Inl e, w')
           | (Inr att_val, w') \<Rightarrow> (Inr (True, Some att_val, ''''), w'))
      | None \<Rightarrow> (Inr (False, None, ''Instrument name not found''), w))"

text \<open>
  In \<^verbatim>\<open>set_att_value\<close> the requested token is looked up in the cached list as it is, then
  converted with \<^verbatim>\<open>float\<close> for the command line; \<^verbatim>\<open>self.att_values_allowed[instrument_name]\<close>
  raises KeyError when the name has no cached list.
\<close>

definition set_att_value ::
  "('d, 'f) platform \<Rightarrow> rfcontrol \<Rightarrow> string \<Rightarrow> string \<Rightarrow> 'd world \<Rightarrow> (exn + 'f triple) \<times> 'd world" where
  "set_att_value P self instrument_name att_value w =
     (case map_of (instruments self) instrument_name of
        Some ins \<Rightarrow>
          (case map_of (att_values_allowed self) instrument_name of
             None \<Rightarrow> (Inl KeyError, w)
           | Some allowed \<Rightarrow>
               if att_value \<in> set allowed then
                 (case pyfloat P att_value of
                    None \<Rightarrow> (Inl ValueError, w)
                  | Some x \<Rightarrow>
                      (case query_float P ins (''ATT:ATTSet? '' @ format_f P x) w of
                         (Inl e, w') \<Rightarrow> (Inl e, w')
                       | (Inr att_val, w') \<Rightarrow> (Inr (True, Some att_val, ''''), w')))
               else (Inr (False, None, ''Unsupported attenuation value''), w))
      | None \<Rightarrow> (Inr (False, None, ''Instrument name not found''), w))"

definition set_step_up ::
  "('d, 'f) platform \<Rightarrow> rfcontrol \<Rightarrow> string \<Rightarrow> 'd world \<Rightarrow> (exn + 'f triple) \<times> 'd world" where
  "set_step_up P self instrument_name w =
     (case map_of (instruments self) instrument_name of
        Some ins \<Rightarrow>
          (case query_float P ins ''ATT:ATTSetUp?'' w of
             (Inl e, w') \<Rightarrow> (Inl e, w')
           | (Inr att_val, w') \<Rightarrow> (Inr (True, Some att_val, ''''), w'))
      | None \<Rightarrow> (Inr (False, None, ''Unsupported attenuation value''), w))"

definition set_step_down ::
  "('d, 'f) platform \<Rightarrow> rfcontrol \<Rightarrow> string \<Rightarrow> 'd world \<Rightarrow> (exn + 'f triple) \<times> 'd world" where
  "set_step_down P self instrument_name w =
     (case map_of (instruments self) instrument_name of
        Some ins \<Rightarrow>
          (case query_float P ins ''ATT:ATTSetDown?'' w of
             (Inl e, w') \<Rightarrow> (Inl e, w')
           | (Inr att_val, w') \<Rightarrow> (Inr (True, Some att_val, ''''), w'))
      | None \<Rightarrow> (Inr (False, None, ''Unsupported attenuation value''), w))"

subsection \<open>A simulated attenuator\<close>

text \<open>
  The attenuator behind the serial line is hardware, not code of the repository. What
  stands for it here is a double: it keeps the table of allowed values and the position of
  the current value in the table.
\<close>

record sim =
  table :: "string list"
  pos :: nat
  powered :: bool

fun join_comma :: "string list \<Rightarrow> string" where
  "join_comma [] = []"
| "join_comma [t] = t"
| "join_comma (t # u # ts) = t @ CHR '','' # join_comma (u # ts)"

definition sim_current :: "sim \<Rightarrow> string" where
  "sim_current d = (if pos d < length (table d) then table d ! pos d else [])"

fun find_value :: "(string \<Rightarrow> 'f option) \<Rightarrow> string list \<Rightarrow> 'f \<Rightarrow> nat option" where
  "find_value pf [] x = None"
| "find_value pf (t # ts) x =
     (if pf t = Some x then Some 0 else map_option Suc (find_value pf ts x))"

text \<open>
  Modelled from the spec: the answers of the attenuator, which the repository does not
  contain. Section 4.2 of the spec gives the line protocol: \<^verbatim>\<open>ATT:ATTTabGet?\<close> answers the
  allowed values separated by commas, \<^verbatim>\<open>ATT:ATTGetCurVal?\<close> the current value,
  \<^verbatim>\<open>ATT:ATTSet? <float>\<close> sets and echoes the new value, \<^verbatim>\<open>ATT:ATTSetUp?\<close> and
  \<^verbatim>\<open>ATT:ATTSetDown?\<close> step and echo the new value. A step is clamped at either end of the
  table. A device without power does not answer, and neither does one that is sent
  anything else: the read times out.
\<close>

definition sim_respond :: "(string \<Rightarrow> 'f option) \<Rightarrow> sim \<Rightarrow> string \<Rightarrow> (exn + string) \<times> sim" where
  "sim_respond pf d cmd =
     (if \<not> powered d then (Inl VisaIOError, d)
      else if cmd = ''ATT:ATTTabGet?'' then (Inr (join_comma (table d)), d)
      else if cmd = ''ATT:ATTGetCurVal?'' then (Inr (sim_current d), d)
      else if cmd = ''ATT:ATTSetUp?'' then
        (let d' = d\<lparr>pos := (if pos d + 1 < length (table d) then pos d + 1 else pos d)\<rparr>
         in (Inr (sim_current d'), d'))
      else if cmd = ''ATT:ATTSetDown?'' then
        (let d' = d\<lparr>pos := pos d - 1\<rparr> in (Inr (sim_current d'), d'))
      else if take 12 cmd = ''ATT:ATTSet? '' then
        (case pf (drop 12 cmd) of
           None \<Rightarrow> (Inl VisaIOError, d)
         | Some x \<Rightarrow>
             (case find_value pf (table d) x of
                None \<Rightarrow> (Inr (sim_current d), d)
              | Some i \<Rightarrow> (let d' = d\<lparr>pos := i\<rparr> in (Inr (sim_current d'), d'))))
      else (Inl VisaIOError, d))"

subsection \<open>A test bench\<close>

text \<open>
  A stand-in for Python's float on the bench: unsigned decimals with at most six places,
  held in millionths. It reads \<^verbatim>\<open>5\<close> and \<^verbatim>\<open>5.000000\<close> as the same value and prints six
  places, as \<^verbatim>\<open>'{:f}'\<close> does.
\<close>

definition is_digit :: "char \<Rightarrow> bool" where
  "is_digit c = (48 \<le> (of_char c :: nat) \<and> (of_char c :: nat) \<le> 57)"

definition nat_of_digits :: "string \<Rightarrow> nat" where
  "nat_of_digits s = foldl (\<lambda>a c. 10 * a + (of_char c - 48)) 0 s"

definition fixed_float :: "string \<Rightarrow> nat option" where
  "fixed_float s =
     (let ip = takeWhile (\<lambda>c. c \<noteq> CHR ''.'') s; rest = dropWhile (\<lambda>c. c \<noteq> CHR ''.'') s in
      if ip = [] \<or> \<not> list_all is_digit ip then None
      else (case rest of
              [] \<Rightarrow> Some (nat_of_digits ip * 1000000)
            | dot # fp \<Rightarrow>
                if list_all is_digit fp \<and> length fp \<le> 6
                then Some (nat_of_digits ip * 1000000 + nat_of_digits fp * 10 ^ (6 - length fp))
                else None))"

definition fixed_format :: "nat \<Rightarrow> string" where
  "fixed_format x =
     str_of_nat (x div 1000000) @ CHR ''.'' # tl (str_of_nat (1000000 + x mod 1000000))"

definition bench :: "(sim, nat) platform" where
  "bench = \<lparr>respond = sim_respond fixed_float, pyfloat = fixed_float, format_f = fixed_format\<rparr>"

definition acm0 :: string where
  "acm0 = ''ASRL/dev/ttyACM0::INSTR''"

definition acm1 :: string where
  "acm1 = ''ASRL/dev/ttyACM1::INSTR''"

definition attenuator :: "string list \<Rightarrow> sim" where
  "attenuator t = \<lparr>table = t, pos = 0, powered = True\<rparr>"

text \<open>A world before the program starts: what the listing shows, and the devices attached.\<close>

definition lab :: "string list \<Rightarrow> (string \<times> 'd) list \<Rightarrow> 'd world" where
  "lab listing attached =
     \<lparr>list_resources = Inr listing, devices = map_of attached, sessions = [],
      mgr_open = False, wire = []\<rparr>"

definition unplug :: "string \<Rightarrow> 'd world \<Rightarrow> 'd world" where
  "unplug a w = w\<lparr>devices := (devices w)(a := None)\<rparr>"

text \<open>The scenario of section 8 of the spec: two attenuators, each allowing 0, 5 and 10.\<close>

definition two_units :: "sim world" where
  "two_units =
     lab [''ASRL/dev/ttyS0::INSTR'', acm0, acm1]
         [(acm0, attenuator [''0'', ''5'', ''10'']), (acm1, attenuator [''0'', ''5'', ''10''])]"

definition two_units_ctl :: rfcontrol where
  "two_units_ctl =
     \<lparr>resource_names = [acm0, acm1],
      instruments = [(''att0'', 0), (''att1'', 1)],
      att_values_allowed = [(''att0'', [''0'', ''5'', ''10'']), (''att1'', [''0'', ''5'', ''10''])]\<rparr>"

text \<open>The same world once the constructor has run on it.\<close>

definition two_units_ready :: "sim world" where
  "two_units_ready = snd (RfControl bench default_timeout default_line_termination two_units)"

text \<open>A world whose listing shows no ACM address.\<close>

definition no_acm :: "sim world" where
  "no_acm = lab [''ASRL/dev/ttyS0::INSTR'', ''GPIB0::12::INSTR''] []"

text \<open>One attenuator whose table ends in a word instead of a number.\<close>

definition odd_unit :: "sim world" where
  "odd_unit = lab [acm0] [(acm0, attenuator [''0'', ''5'', ''max''])]"

definition odd_unit_ctl :: rfcontrol where
  "odd_unit_ctl =
     \<lparr>resource_names = [acm0],
      instruments = [(''att0'', 0)],
      att_values_allowed = [(''att0'', [''0'', ''5'', ''max''])]\<rparr>"

definition odd_unit_ready :: "sim world" where
  "odd_unit_ready = snd (RfControl bench default_timeout default_line_termination odd_unit)"



section \<open>Properties\<close>

lemmas boot_defs =
  RfControl_def lab_def bench_def acm0_def acm1_def get_acm_ctrl_list_def
  open_resource_def query_def sim_respond_def attenuator_def
  str_of_nat.simps digit_char_def default_timeout_def
  default_line_termination_def Let_def

lemmas op_defs =
  query_def query_float_def bench_def sim_respond_def sim_current_def attenuator_def
  fixed_float_def is_digit_def nat_of_digits_def fixed_format_def str_of_nat.simps
  digit_char_def Let_def

subsection \<open>The bench after the constructor\<close>

lemma two_units_boot:
  "fst (RfControl bench default_timeout default_line_termination two_units) = Inr two_units_ctl"
  by (simp add: two_units_def two_units_ctl_def boot_defs)

lemma two_units_ready_sessions:
  "sessions two_units_ready =
     [\<lparr>resource_name = acm0, is_open = True,
       read_termination = Some default_line_termination, timeout = Some default_timeout\<rparr>,
      \<lparr>resource_name = acm1, is_open = True,
       read_termination = Some default_line_termination, timeout = Some default_timeout\<rparr>]"
  by (simp add: two_units_ready_def two_units_def boot_defs)

lemma two_units_ready_devices:
  "devices two_units_ready acm0 = Some (attenuator [''0'', ''5'', ''10''])"
  "devices two_units_ready acm1 = Some (attenuator [''0'', ''5'', ''10''])"
  by (simp_all add: two_units_ready_def two_units_def boot_defs)

lemma two_units_ready_wire:
  "wire two_units_ready = [(0, ''ATT:ATTTabGet?''), (1, ''ATT:ATTTabGet?'')]"
  by (simp add: two_units_ready_def two_units_def boot_defs)

lemmas ready_facts = two_units_ready_sessions two_units_ready_devices two_units_ready_wire

lemma odd_unit_boot:
  "fst (RfControl bench default_timeout default_line_termination odd_unit) = Inr odd_unit_ctl"
  by (simp add: odd_unit_def odd_unit_ctl_def boot_defs)

lemma odd_unit_ready_sessions:
  "sessions odd_unit_ready =
     [\<lparr>resource_name = acm0, is_open = True,
       read_termination = Some default_line_termination, timeout = Some default_timeout\<rparr>]"
  by (simp add: odd_unit_ready_def odd_unit_def boot_defs)

lemma odd_unit_ready_devices:
  "devices odd_unit_ready acm0 = Some (attenuator [''0'', ''5'', ''max''])"
  by (simp add: odd_unit_ready_def odd_unit_def boot_defs)

subsection \<open>Decimal names, indices and dicts\<close>

lemma digit_char_code: "d < 10 \<Longrightarrow> (of_char (digit_char d) :: nat) = 48 + d"
proof -
  assume "d < 10"
  then have "d \<in> {0, 1, 2, 3, 4, 5, 6, 7, 8, 9}" by auto
  then show ?thesis by (auto simp: digit_char_def)
qed

lemma nat_of_digits_snoc:
  "nat_of_digits (s @ [c]) = 10 * nat_of_digits s + (of_char c - 48)"
  by (simp add: nat_of_digits_def)

lemma nat_of_digits_str_of_nat: "nat_of_digits (str_of_nat n) = n"
proof (induction n rule: str_of_nat.induct)
  case (1 n)
  show ?case
  proof (cases "n < 10")
    case True
    then show ?thesis
      by (simp add: str_of_nat.simps [of n] nat_of_digits_def digit_char_code)
  next
    case False
    with 1 have "nat_of_digits (str_of_nat (n div 10)) = n div 10" by simp
    with False show ?thesis
      by (simp add: str_of_nat.simps [of n] nat_of_digits_snoc digit_char_code)
  qed
qed

lemma str_of_nat_inj: "str_of_nat m = str_of_nat n \<longleftrightarrow> m = n"
  by (metis nat_of_digits_str_of_nat)


lemma list_index_Some:
  "list_index xs x = Some i \<Longrightarrow> i < length xs \<and> xs ! i = x"
  by (induction xs arbitrary: i) (auto split: if_splits)

lemma list_index_append_fresh:
  "x \<notin> set pre \<Longrightarrow> list_index (pre @ x # rest) x = Some (length pre)"
  by (induction pre) auto

lemma dict_set_fresh: "k \<notin> fst ` set d \<Longrightarrow> dict_set d k v = d @ [(k, v)]"
  by (induction d) auto

lemma dict_set_keys:
  "map fst (dict_set d k v) = (if k \<in> set (map fst d) then map fst d else map fst d @ [k])"
  by (induction d) force+

lemma dict_set_keys_distinct:
  "distinct (map fst d) \<Longrightarrow> distinct (map fst (dict_set d k v))"
  by (simp add: dict_set_keys)

lemma dict_set_set: "set (dict_set d k v) \<subseteq> insert (k, v) (set d)"
  by (induction d) (auto split: if_splits)

lemma dict_set_has: "(k, v) \<in> set (dict_set d k v)"
  by (induction d) auto

lemma dict_set_keeps: "(k', v') \<in> set d \<Longrightarrow> k' \<noteq> k \<Longrightarrow> (k', v') \<in> set (dict_set d k v)"
  by (induction d) auto

subsection \<open>The address filter\<close>

lemma starts_with_iff: "starts_with sub s \<longleftrightarrow> (\<exists>q. s = sub @ q)"
  by (induction sub s rule: starts_with.induct) auto

lemma str_in_iff: "str_in sub s \<longleftrightarrow> (\<exists>p q. s = p @ sub @ q)"
proof (induction s)
  case Nil
  show ?case by auto
next
  case (Cons c s)
  have "(\<exists>p q. c # s = p @ sub @ q) \<longleftrightarrow> (\<exists>q. c # s = sub @ q) \<or> (\<exists>p q. s = p @ sub @ q)"
  proof
    assume "\<exists>p q. c # s = p @ sub @ q"
    then obtain p q where pq: "c # s = p @ sub @ q" by blast
    show "(\<exists>q. c # s = sub @ q) \<or> (\<exists>p q. s = p @ sub @ q)"
    proof (cases p)
      case Nil
      with pq show ?thesis by auto
    next
      case (Cons a p')
      with pq have "s = p' @ sub @ q" by simp
      then show ?thesis by blast
    qed
  next
    assume "(\<exists>q. c # s = sub @ q) \<or> (\<exists>p q. s = p @ sub @ q)"
    then show "\<exists>p q. c # s = p @ sub @ q"
    proof
      assume "\<exists>q. c # s = sub @ q"
      then obtain q where "c # s = [] @ sub @ q" by auto
      then show ?thesis by blast
    next
      assume "\<exists>p q. s = p @ sub @ q"
      then obtain p q where "c # s = (c # p) @ sub @ q" by auto
      then show ?thesis by blast
    qed
  qed
  with Cons show ?case by (simp add: starts_with_iff)
qed

text \<open>
  C7. For every list of interface addresses, \<^verbatim>\<open>get_acm_ctrl_list\<close> returns exactly the
  addresses that contain \<^verbatim>\<open>ACM\<close> as a substring, in their original order. The function is
  pure: it takes no world and returns none.
\<close>

theorem get_acm_ctrl_list_filter:
  "get_acm_ctrl_list interfaces_list =
     filter (\<lambda>elem. \<exists>p q. elem = p @ ''ACM'' @ q) interfaces_list"
  unfolding get_acm_ctrl_list_def str_in_iff by (rule refl)

theorem get_acm_ctrl_list_filter_witness:
  "filter (\<lambda>elem. \<exists>p q. elem = p @ ''ACM'' @ q)
     [''ASRL/dev/ttyS0::INSTR'', ''ASRL/dev/ttyACM0::INSTR'', ''GPIB0::12::INSTR'',
      ''ASRL/dev/ttyACM1::INSTR'']
   = [''ASRL/dev/ttyACM0::INSTR'', ''ASRL/dev/ttyACM1::INSTR'']"
  using get_acm_ctrl_list_filter
    [of "[''ASRL/dev/ttyS0::INSTR'', ''ASRL/dev/ttyACM0::INSTR'', ''GPIB0::12::INSTR'',
          ''ASRL/dev/ttyACM1::INSTR'']"]
  by (simp add: get_acm_ctrl_list_def)

subsection \<open>The constructor without devices\<close>

text \<open>
  C6. When the listing holds no address that contains \<^verbatim>\<open>ACM\<close>, the constructor raises
  NameError with the message "No ACM resources found, please check your devices
  connection", and the world it leaves differs from the one it found only in the resource
  manager it created: no session was opened and nothing was written.
\<close>

theorem init_no_acm:
  assumes "list_resources w = Inr rs" and "get_acm_ctrl_list rs = []"
  shows "RfControl P tmo line_termination w =
           (Inl (NameError ''No ACM resources found, please check your devices connection''),
            w\<lparr>mgr_open := True\<rparr>)
       \<and> sessions (snd (RfControl P tmo line_termination w)) = sessions w
       \<and> wire (snd (RfControl P tmo line_termination w)) = wire w"
  using assms by (simp add: RfControl_def)

theorem init_no_acm_witness:
  "list_resources no_acm = Inr [''ASRL/dev/ttyS0::INSTR'', ''GPIB0::12::INSTR'']
   \<and> get_acm_ctrl_list [''ASRL/dev/ttyS0::INSTR'', ''GPIB0::12::INSTR''] = []
   \<and> fst (RfControl bench default_timeout default_line_termination no_acm) =
       Inl (NameError ''No ACM resources found, please check your devices connection'')
   \<and> sessions (snd (RfControl bench default_timeout default_line_termination no_acm)) = []"
  using init_no_acm
    [of no_acm "[''ASRL/dev/ttyS0::INSTR'', ''GPIB0::12::INSTR'']" bench default_timeout
        default_line_termination]
  by (simp add: no_acm_def lab_def get_acm_ctrl_list_def)

subsection \<open>The four operations\<close>

text \<open>
  C3. For a name that is not in the registry, \<^verbatim>\<open>get_att_value\<close> and \<^verbatim>\<open>set_att_value\<close> return
  (False, None, "Instrument name not found"), \<^verbatim>\<open>set_step_up\<close> and \<^verbatim>\<open>set_step_down\<close> return
  (False, None, "Unsupported attenuation value"), and the world is as it was.
\<close>

theorem unknown_name:
  assumes "name \<notin> set (get_instrument_names self)"
  shows "get_att_value P self name w = (Inr (False, None, ''Instrument name not found''), w)
       \<and> set_att_value P self name v w = (Inr (False, None, ''Instrument name not found''), w)
       \<and> set_step_up P self name w = (Inr (False, None, ''Unsupported attenuation value''), w)
       \<and> set_step_down P self name w = (Inr (False, None, ''Unsupported attenuation value''), w)"
proof -
  from assms have "map_of (instruments self) name = None"
    by (simp add: get_instrument_names_def map_of_eq_None_iff)
  then show ?thesis
    by (simp add: get_att_value_def set_att_value_def set_step_up_def set_step_down_def)
qed

theorem unknown_name_witness:
  "''bogus'' \<notin> set (get_instrument_names two_units_ctl)
   \<and> get_att_value bench two_units_ctl ''bogus'' two_units_ready =
       (Inr (False, None, ''Instrument name not found''), two_units_ready)
   \<and> set_att_value bench two_units_ctl ''bogus'' ''5'' two_units_ready =
       (Inr (False, None, ''Instrument name not found''), two_units_ready)
   \<and> set_step_up bench two_units_ctl ''bogus'' two_units_ready =
       (Inr (False, None, ''Unsupported attenuation value''), two_units_ready)
   \<and> set_step_down bench two_units_ctl ''bogus'' two_units_ready =
       (Inr (False, None, ''Unsupported attenuation value''), two_units_ready)"
  using unknown_name [of "''bogus''" two_units_ctl bench two_units_ready "''5''"]
  by (simp add: get_instrument_names_def two_units_ctl_def)

lemma query_float_cases:
  "fst (query_float P ins cmd w) =
     (case fst (query (respond P) ins cmd w) of
        Inl e \<Rightarrow> Inl e
      | Inr r \<Rightarrow> (case pyfloat P r of None \<Rightarrow> Inl ValueError | Some y \<Rightarrow> Inr y))"
  by (simp add: query_float_def split: prod.splits sum.splits option.splits)

lemma get_att_value_known:
  "map_of (instruments self) name = Some ins \<Longrightarrow>
   fst (get_att_value P self name w) =
     (case fst (query_float P ins ''ATT:ATTGetCurVal?'' w) of
        Inl e \<Rightarrow> Inl e | Inr y \<Rightarrow> Inr (True, Some y, []))"
  by (simp add: get_att_value_def split: prod.splits sum.splits)

lemma set_step_up_known:
  "map_of (instruments self) name = Some ins \<Longrightarrow>
   fst (set_step_up P self name w) =
     (case fst (query_float P ins ''ATT:ATTSetUp?'' w) of
        Inl e \<Rightarrow> Inl e | Inr y \<Rightarrow> Inr (True, Some y, []))"
  by (simp add: set_step_up_def split: prod.splits sum.splits)

lemma set_step_down_known:
  "map_of (instruments self) name = Some ins \<Longrightarrow>
   fst (set_step_down P self name w) =
     (case fst (query_float P ins ''ATT:ATTSetDown?'' w) of
        Inl e \<Rightarrow> Inl e | Inr y \<Rightarrow> Inr (True, Some y, []))"
  by (simp add: set_step_down_def split: prod.splits sum.splits)

lemma set_att_value_allowed:
  "map_of (instruments self) name = Some ins \<Longrightarrow>
   map_of (att_values_allowed self) name = Some allowed \<Longrightarrow> v \<in> set allowed \<Longrightarrow>
   fst (set_att_value P self name v w) =
     (case pyfloat P v of
        None \<Rightarrow> Inl ValueError
      | Some x \<Rightarrow>
          (case fst (query_float P ins (''ATT:ATTSet? '' @ format_f P x) w) of
             Inl e \<Rightarrow> Inl e | Inr y \<Rightarrow> Inr (True, Some y, [])))"
  by (simp add: set_att_value_def split: prod.splits sum.splits option.splits)

text \<open>
  C1, as the code has it. For a name in the registry with a cached list: a value that is
  not in the list, compared as the token it is, is answered
  (False, None, "Unsupported attenuation value") and nothing is sent. A value in the list
  is first converted with \<^verbatim>\<open>float\<close>; when that succeeds, the instrument answers the set
  command and the answer converts with \<^verbatim>\<open>float\<close>, the result is (True, answer, ""). When
  one of the three steps fails, its exception is the outcome and no triple is returned.
\<close>

theorem set_att_value_known:
  assumes "map_of (instruments self) name = Some ins"
    and "map_of (att_values_allowed self) name = Some allowed"
  shows "(v \<notin> set allowed \<longrightarrow>
            set_att_value P self name v w =
              (Inr (False, None, ''Unsupported attenuation value''), w))
       \<and> (v \<in> set allowed \<and> pyfloat P v = Some x
            \<and> fst (query (respond P) ins (''ATT:ATTSet? '' @ format_f P x) w) = Inr r
            \<and> pyfloat P r = Some y \<longrightarrow>
            fst (set_att_value P self name v w) = Inr (True, Some y, []))
       \<and> (v \<in> set allowed \<and> pyfloat P v = None \<longrightarrow>
            set_att_value P self name v w = (Inl ValueError, w))
       \<and> (v \<in> set allowed \<and> pyfloat P v = Some x
            \<and> fst (query (respond P) ins (''ATT:ATTSet? '' @ format_f P x) w) = Inl e \<longrightarrow>
            fst (set_att_value P self name v w) = Inl e)
       \<and> (v \<in> set allowed \<and> pyfloat P v = Some x
            \<and> fst (query (respond P) ins (''ATT:ATTSet? '' @ format_f P x) w) = Inr r
            \<and> pyfloat P r = None \<longrightarrow>
            fst (set_att_value P self name v w) = Inl ValueError)"
proof (intro conjI impI)
  assume "v \<notin> set allowed"
  with assms show "set_att_value P self name v w =
      (Inr (False, None, ''Unsupported attenuation value''), w)"
    by (simp add: set_att_value_def)
next
  assume "v \<in> set allowed \<and> pyfloat P v = None"
  with assms show "set_att_value P self name v w = (Inl ValueError, w)"
    by (simp add: set_att_value_def)
next
  assume "v \<in> set allowed \<and> pyfloat P v = Some x
            \<and> fst (query (respond P) ins (''ATT:ATTSet? '' @ format_f P x) w) = Inr r
            \<and> pyfloat P r = Some y"
  with assms show "fst (set_att_value P self name v w) = Inr (True, Some y, [])"
    by (simp add: set_att_value_allowed query_float_cases)
next
  assume "v \<in> set allowed \<and> pyfloat P v = Some x
            \<and> fst (query (respond P) ins (''ATT:ATTSet? '' @ format_f P x) w) = Inl e"
  with assms show "fst (set_att_value P self name v w) = Inl e"
    by (simp add: set_att_value_allowed query_float_cases)
next
  assume "v \<in> set allowed \<and> pyfloat P v = Some x
            \<and> fst (query (respond P) ins (''ATT:ATTSet? '' @ format_f P x) w) = Inr r
            \<and> pyfloat P r = None"
  with assms show "fst (set_att_value P self name v w) = Inl ValueError"
    by (simp add: set_att_value_allowed query_float_cases)
qed

theorem set_att_value_known_witness:
  "map_of (instruments two_units_ctl) ''att0'' = Some 0
   \<and> map_of (att_values_allowed two_units_ctl) ''att0'' = Some [''0'', ''5'', ''10'']
   \<and> ''7'' \<notin> set [''0'', ''5'', ''10'']
   \<and> set_att_value bench two_units_ctl ''att0'' ''7'' two_units_ready =
       (Inr (False, None, ''Unsupported attenuation value''), two_units_ready)
   \<and> ''5'' \<in> set [''0'', ''5'', ''10'']
   \<and> pyfloat bench ''5'' = Some 5000000
   \<and> fst (query (respond bench) 0 (''ATT:ATTSet? '' @ format_f bench 5000000) two_units_ready)
       = Inr ''5''
   \<and> fst (set_att_value bench two_units_ctl ''att0'' ''5'' two_units_ready) =
       Inr (True, Some 5000000, [])"
  using set_att_value_known
    [of two_units_ctl "''att0''" 0 "[''0'', ''5'', ''10'']" "''7''" bench two_units_ready
        0 "[]" 0 ValueError]
    set_att_value_known
    [of two_units_ctl "''att0''" 0 "[''0'', ''5'', ''10'']" "''5''" bench two_units_ready
        5000000 "''5''" 5000000 ValueError]
  by (simp add: two_units_ctl_def ready_facts op_defs)

text \<open>
  C1 as stated fails. On a bench whose attenuator reports the table \<^verbatim>\<open>0,5,max\<close>, the token
  \<^verbatim>\<open>max\<close> is in the cached list and \<^verbatim>\<open>set_att_value\<close> raises ValueError on it; and on the
  two-unit bench, with the first unit unplugged after the constructor, the allowed token
  \<^verbatim>\<open>5\<close> ends in the VISA error of the query.
\<close>

theorem set_att_value_member_counterexample:
  "fst (RfControl bench default_timeout default_line_termination odd_unit) = Inr odd_unit_ctl
   \<and> map_of (att_values_allowed odd_unit_ctl) ''att0'' = Some [''0'', ''5'', ''max'']
   \<and> ''max'' \<in> set [''0'', ''5'', ''max'']
   \<and> fst (set_att_value bench odd_unit_ctl ''att0'' ''max'' odd_unit_ready) = Inl ValueError
   \<and> map_of (att_values_allowed two_units_ctl) ''att0'' = Some [''0'', ''5'', ''10'']
   \<and> ''5'' \<in> set [''0'', ''5'', ''10'']
   \<and> fst (set_att_value bench two_units_ctl ''att0'' ''5'' (unplug acm0 two_units_ready))
       = Inl VisaIOError"
proof -
  have "fst (set_att_value bench odd_unit_ctl ''att0'' ''max'' odd_unit_ready) = Inl ValueError"
    by (simp add: set_att_value_def odd_unit_ctl_def bench_def fixed_float_def is_digit_def)
  moreover have
    "fst (set_att_value bench two_units_ctl ''att0'' ''5'' (unplug acm0 two_units_ready))
       = Inl VisaIOError"
    by (simp add: set_att_value_def two_units_ctl_def unplug_def ready_facts op_defs)
  ultimately show ?thesis
    using odd_unit_boot by (simp add: odd_unit_ctl_def two_units_ctl_def)
qed

text \<open>
  C2, as the code has it. For a name in the registry, each operation ends in the exception
  of the lower layer whenever there is one: the error of the query (a timeout, a channel
  failure), or ValueError when the answer (for \<^verbatim>\<open>set_att_value\<close> also the requested token)
  is not a number. It returns a triple, (True, answer, ""), exactly when query and
  conversion succeed. Nothing turns a lower-layer failure into a status of False.
\<close>

theorem lower_layer_failure_propagates:
  assumes "map_of (instruments self) name = Some ins"
  shows "(fst (query (respond P) ins ''ATT:ATTGetCurVal?'' w) = Inl e
            \<longrightarrow> fst (get_att_value P self name w) = Inl e)
       \<and> (fst (query (respond P) ins ''ATT:ATTGetCurVal?'' w) = Inr r \<and> pyfloat P r = None
            \<longrightarrow> fst (get_att_value P self name w) = Inl ValueError)
       \<and> (fst (query (respond P) ins ''ATT:ATTGetCurVal?'' w) = Inr r \<and> pyfloat P r = Some y
            \<longrightarrow> fst (get_att_value P self name w) = Inr (True, Some y, []))
       \<and> (fst (query (respond P) ins ''ATT:ATTSetUp?'' w) = Inl e
            \<longrightarrow> fst (set_step_up P self name w) = Inl e)
       \<and> (fst (query (respond P) ins ''ATT:ATTSetUp?'' w) = Inr r \<and> pyfloat P r = None
            \<longrightarrow> fst (set_step_up P self name w) = Inl ValueError)
       \<and> (fst (query (respond P) ins ''ATT:ATTSetUp?'' w) = Inr r \<and> pyfloat P r = Some y
            \<longrightarrow> fst (set_step_up P self name w) = Inr (True, Some y, []))
       \<and> (fst (query (respond P) ins ''ATT:ATTSetDown?'' w) = Inl e
            \<longrightarrow> fst (set_step_down P self name w) = Inl e)
       \<and> (fst (query (respond P) ins ''ATT:ATTSetDown?'' w) = Inr r \<and> pyfloat P r = None
            \<longrightarrow> fst (set_step_down P self name w) = Inl ValueError)
       \<and> (fst (query (respond P) ins ''ATT:ATTSetDown?'' w) = Inr r \<and> pyfloat P r = Some y
            \<longrightarrow> fst (set_step_down P self name w) = Inr (True, Some y, []))
       \<and> (map_of (att_values_allowed self) name = Some allowed \<and> v \<in> set allowed
            \<and> pyfloat P v = None
            \<longrightarrow> fst (set_att_value P self name v w) = Inl ValueError)
       \<and> (map_of (att_values_allowed self) name = Some allowed \<and> v \<in> set allowed
            \<and> pyfloat P v = Some x
            \<and> fst (query (respond P) ins (''ATT:ATTSet? '' @ format_f P x) w) = Inl e
            \<longrightarrow> fst (set_att_value P self name v w) = Inl e)
       \<and> (map_of (att_values_allowed self) name = Some allowed \<and> v \<in> set allowed
            \<and> pyfloat P v = Some x
            \<and> fst (query (respond P) ins (''ATT:ATTSet? '' @ format_f P x) w) = Inr r
            \<and> pyfloat P r = None
            \<longrightarrow> fst (set_att_value P self name v w) = Inl ValueError)
       \<and> (map_of (att_values_allowed self) name = Some allowed \<and> v \<in> set allowed
            \<and> pyfloat P v = Some x
            \<and> fst (query (respond P) ins (''ATT:ATTSet? '' @ format_f P x) w) = Inr r
            \<and> pyfloat P r = Some y
            \<longrightarrow> fst (set_att_value P self name v w) = Inr (True, Some y, []))"
  using assms
  by (simp add: get_att_value_known set_step_up_known set_step_down_known
        set_att_value_allowed query_float_cases)

theorem lower_layer_failure_propagates_witness:
  "map_of (instruments two_units_ctl) ''att0'' = Some 0
   \<and> fst (query (respond bench) 0 ''ATT:ATTGetCurVal?'' (unplug acm0 two_units_ready))
       = Inl VisaIOError
   \<and> fst (get_att_value bench two_units_ctl ''att0'' (unplug acm0 two_units_ready))
       = Inl VisaIOError
   \<and> fst (query (respond bench) 0 ''ATT:ATTSetUp?'' (unplug acm0 two_units_ready))
       = Inl VisaIOError
   \<and> fst (set_step_up bench two_units_ctl ''att0'' (unplug acm0 two_units_ready))
       = Inl VisaIOError
   \<and> fst (query (respond bench) 0 ''ATT:ATTSetDown?'' (unplug acm0 two_units_ready))
       = Inl VisaIOError
   \<and> fst (set_step_down bench two_units_ctl ''att0'' (unplug acm0 two_units_ready))
       = Inl VisaIOError"
  using lower_layer_failure_propagates
    [of two_units_ctl "''att0''" 0 bench "unplug acm0 two_units_ready" VisaIOError "[]" 0
        "[]" "[]" 0]
  by (simp add: two_units_ctl_def unplug_def ready_facts op_defs)

text \<open>
  C2 as stated fails: with the first unit unplugged, \<^verbatim>\<open>get_att_value\<close> and \<^verbatim>\<open>set_step_up\<close>
  on the known name \<^verbatim>\<open>att0\<close> end in the VISA error; and on the bench with the table
  \<^verbatim>\<open>0,5,max\<close> the second step up is answered \<^verbatim>\<open>max\<close> and ends in ValueError.
\<close>

theorem facade_raises_counterexample:
  "''att0'' \<in> set (get_instrument_names two_units_ctl)
   \<and> fst (get_att_value bench two_units_ctl ''att0'' (unplug acm0 two_units_ready))
       = Inl VisaIOError
   \<and> fst (set_step_up bench two_units_ctl ''att0'' (unplug acm0 two_units_ready))
       = Inl VisaIOError
   \<and> fst (set_step_up bench odd_unit_ctl ''att0''
            (snd (set_step_up bench odd_unit_ctl ''att0'' odd_unit_ready)))
       = Inl ValueError"
  by (simp add: get_att_value_def set_step_up_def get_instrument_names_def
        two_units_ctl_def odd_unit_ctl_def unplug_def
        odd_unit_ready_sessions odd_unit_ready_devices ready_facts op_defs)

lemma get_att_value_shape:
  "fst (get_att_value P self name w) = Inr (s, v, m) \<Longrightarrow> (s \<longleftrightarrow> v \<noteq> None) \<and> (s \<longleftrightarrow> m = [])"
  by (auto simp: get_att_value_def split: option.splits prod.splits sum.splits)

lemma set_att_value_shape:
  "fst (set_att_value P self name a w) = Inr (s, v, m) \<Longrightarrow> (s \<longleftrightarrow> v \<noteq> None) \<and> (s \<longleftrightarrow> m = [])"
  by (auto simp: set_att_value_def split: option.splits prod.splits sum.splits if_splits)

lemma set_step_up_shape:
  "fst (set_step_up P self name w) = Inr (s, v, m) \<Longrightarrow> (s \<longleftrightarrow> v \<noteq> None) \<and> (s \<longleftrightarrow> m = [])"
  by (auto simp: set_step_up_def split: option.splits prod.splits sum.splits)

lemma set_step_down_shape:
  "fst (set_step_down P self name w) = Inr (s, v, m) \<Longrightarrow> (s \<longleftrightarrow> v \<noteq> None) \<and> (s \<longleftrightarrow> m = [])"
  by (auto simp: set_step_down_def split: option.splits prod.splits sum.splits)

text \<open>
  C9. Whenever one of the four operations returns a triple (status, att_val, msg), the
  status is True exactly when att_val is not None, and exactly when msg is the empty string.
\<close>

theorem triple_shape:
  assumes "fst (get_att_value P self name w) = Inr (s, v, m)
         \<or> fst (set_att_value P self name a w) = Inr (s, v, m)
         \<or> fst (set_step_up P self name w) = Inr (s, v, m)
         \<or> fst (set_step_down P self name w) = Inr (s, v, m)"
  shows "(s \<longleftrightarrow> v \<noteq> None) \<and> (s \<longleftrightarrow> m = [])"
  using assms
proof (elim disjE)
  assume "fst (get_att_value P self name w) = Inr (s, v, m)"
  then show ?thesis by (rule get_att_value_shape)
next
  assume "fst (set_att_value P self name a w) = Inr (s, v, m)"
  then show ?thesis by (rule set_att_value_shape)
next
  assume "fst (set_step_up P self name w) = Inr (s, v, m)"
  then show ?thesis by (rule set_step_up_shape)
next
  assume "fst (set_step_down P self name w) = Inr (s, v, m)"
  then show ?thesis by (rule set_step_down_shape)
qed

theorem triple_shape_witness:
  "fst (get_att_value bench two_units_ctl ''att0'' two_units_ready) = Inr (True, Some 0, [])
   \<and> ((True \<longleftrightarrow> Some (0::nat) \<noteq> None) \<and> (True \<longleftrightarrow> [] = ([]::string)))
   \<and> fst (set_att_value bench two_units_ctl ''att0'' ''7'' two_units_ready) =
       Inr (False, None, ''Unsupported attenuation value'')
   \<and> ((False \<longleftrightarrow> (None::nat option) \<noteq> None)
      \<and> (False \<longleftrightarrow> ''Unsupported attenuation value'' = []))"
  using triple_shape [of bench two_units_ctl "''att0''" two_units_ready True "Some 0" "[]"]
    triple_shape [of bench two_units_ctl "''att0''" two_units_ready False None
       "''Unsupported attenuation value''" "''7''"]
  by (simp add: get_att_value_def set_att_value_def two_units_ctl_def ready_facts op_defs)

text \<open>
  C10. When \<^verbatim>\<open>set_att_value\<close> is given a name that is not in the registry, or a value that is
  not in the list cached for the name, it returns with the world as it found it: nothing
  was written to any session. The registry is a value the operation only reads.
\<close>

theorem set_rejected_sends_nothing:
  assumes "name \<notin> set (get_instrument_names self)
         \<or> (\<forall>allowed. map_of (att_values_allowed self) name = Some allowed \<longrightarrow> v \<notin> set allowed)"
  shows "snd (set_att_value P self name v w) = w"
  using assms
proof
  assume "name \<notin> set (get_instrument_names self)"
  then have "map_of (instruments self) name = None"
    by (simp add: get_instrument_names_def map_of_eq_None_iff)
  then show ?thesis by (simp add: set_att_value_def)
next
  assume "\<forall>allowed. map_of (att_values_allowed self) name = Some allowed \<longrightarrow> v \<notin> set allowed"
  then show ?thesis
    by (simp add: set_att_value_def split: option.splits)
qed

theorem set_rejected_sends_nothing_witness:
  "map_of (att_values_allowed two_units_ctl) ''att0'' = Some [''0'', ''5'', ''10'']
   \<and> ''7'' \<notin> set [''0'', ''5'', ''10'']
   \<and> snd (set_att_value bench two_units_ctl ''att0'' ''7'' two_units_ready) = two_units_ready
   \<and> ''bogus'' \<notin> set (get_instrument_names two_units_ctl)
   \<and> snd (set_att_value bench two_units_ctl ''bogus'' ''5'' two_units_ready) = two_units_ready"
  using set_rejected_sends_nothing [of "''att0''" two_units_ctl "''7''" bench two_units_ready]
    set_rejected_sends_nothing [of "''bogus''" two_units_ctl "''5''" bench two_units_ready]
  by (simp add: two_units_ctl_def get_instrument_names_def)

subsection \<open>Stepping up and down\<close>

lemma query_sim_step:
  assumes "ins < length (sessions w)" and "is_open (sessions w ! ins)"
    and "devices w (resource_name (sessions w ! ins)) = Some d"
    and "rsp d cmd = (r, d')"
  shows "query rsp ins cmd w =
           (r, w\<lparr>devices := (devices w)(resource_name (sessions w ! ins) \<mapsto> d'),
                 wire := wire w @ [(ins, cmd)]\<rparr>)"
  using assms by (simp add: query_def)

lemma sim_respond_up:
  "powered d \<Longrightarrow> pos d + 1 < length (table d) \<Longrightarrow>
   sim_respond pf d ''ATT:ATTSetUp?'' = (Inr (table d ! (pos d + 1)), d\<lparr>pos := pos d + 1\<rparr>)"
  by (simp add: sim_respond_def sim_current_def Let_def)

lemma sim_respond_down:
  "powered d \<Longrightarrow> 0 < pos d \<Longrightarrow> pos d < length (table d) + 1 \<Longrightarrow>
   sim_respond pf d ''ATT:ATTSetDown?'' = (Inr (table d ! (pos d - 1)), d\<lparr>pos := pos d - 1\<rparr>)"
  by (auto simp add: sim_respond_def sim_current_def Let_def)

lemma sim_respond_cur:
  "powered d \<Longrightarrow> pos d < length (table d) \<Longrightarrow>
   sim_respond pf d ''ATT:ATTGetCurVal?'' = (Inr (table d ! pos d), d)"
  by (simp add: sim_respond_def sim_current_def)

lemma query_fst_cong:
  assumes "sessions w' = sessions w" and "devices w' = devices w"
  shows "fst (query rsp ins cmd w') = fst (query rsp ins cmd w)"
  using assms by (simp add: query_def split: option.splits prod.splits)

lemma get_att_value_result:
  "map_of (instruments self) name = Some ins \<Longrightarrow>
   query (respond P) ins ''ATT:ATTGetCurVal?'' w = (Inr r, w') \<Longrightarrow> pyfloat P r = Some y \<Longrightarrow>
   get_att_value P self name w = (Inr (True, Some y, []), w')"
  by (simp add: get_att_value_def query_float_def)

lemma set_step_up_result:
  "map_of (instruments self) name = Some ins \<Longrightarrow>
   query (respond P) ins ''ATT:ATTSetUp?'' w = (Inr r, w') \<Longrightarrow> pyfloat P r = Some y \<Longrightarrow>
   set_step_up P self name w = (Inr (True, Some y, []), w')"
  by (simp add: set_step_up_def query_float_def)

lemma set_step_down_result:
  "map_of (instruments self) name = Some ins \<Longrightarrow>
   query (respond P) ins ''ATT:ATTSetDown?'' w = (Inr r, w') \<Longrightarrow> pyfloat P r = Some y \<Longrightarrow>
   set_step_down P self name w = (Inr (True, Some y, []), w')"
  by (simp add: set_step_down_def query_float_def)

text \<open>
  C8, against the simulated attenuator. Take a name in the registry whose session is open
  on a powered double with numeric table entries, the current value not the last of the
  table (so that the step up is not clamped). Then \<^verbatim>\<open>set_step_up\<close> returns the next entry,
  \<^verbatim>\<open>set_step_down\<close> right after it returns the value \<^verbatim>\<open>get_att_value\<close> would have returned
  at the start, every device is in the state it started in, and \<^verbatim>\<open>get_att_value\<close>
  afterwards reads the original value.
\<close>

theorem step_up_down_round_trip:
  assumes known: "map_of (instruments self) name = Some ins"
    and sess: "ins < length (sessions w)" "is_open (sessions w ! ins)"
    and dev: "devices w (resource_name (sessions w ! ins)) = Some d"
    and double: "respond P = sim_respond pf"
    and on: "powered d"
    and inner: "pos d + 1 < length (table d)"
    and num: "pyfloat P (table d ! pos d) = Some v0" "pyfloat P (table d ! (pos d + 1)) = Some v1"
  shows "fst (get_att_value P self name w) = Inr (True, Some v0, [])
       \<and> fst (set_step_up P self name w) = Inr (True, Some v1, [])
       \<and> fst (set_step_down P self name (snd (set_step_up P self name w)))
           = Inr (True, Some v0, [])
       \<and> devices (snd (set_step_down P self name (snd (set_step_up P self name w))))
           = devices w
       \<and> fst (get_att_value P self name
                 (snd (set_step_down P self name (snd (set_step_up P self name w)))))
           = Inr (True, Some v0, [])"
proof -
  let ?a = "resource_name (sessions w ! ins)"
  let ?d1 = "d\<lparr>pos := pos d + 1\<rparr>"
  let ?w1 = "w\<lparr>devices := (devices w)(?a \<mapsto> ?d1), wire := wire w @ [(ins, ''ATT:ATTSetUp?'')]\<rparr>"
  let ?w2 = "?w1\<lparr>devices := (devices ?w1)(?a \<mapsto> d),
                  wire := wire ?w1 @ [(ins, ''ATT:ATTSetDown?'')]\<rparr>"
  have cur: "query (respond P) ins ''ATT:ATTGetCurVal?'' w =
      (Inr (table d ! pos d), w\<lparr>devices := (devices w)(?a \<mapsto> d),
          wire := wire w @ [(ins, ''ATT:ATTGetCurVal?'')]\<rparr>)"
    using sess dev on inner by (simp add: query_sim_step double sim_respond_cur)
  have get0: "fst (get_att_value P self name w) = Inr (True, Some v0, [])"
    using get_att_value_result [OF known cur num(1)] by simp
  have up: "query (respond P) ins ''ATT:ATTSetUp?'' w = (Inr (table d ! (pos d + 1)), ?w1)"
    using sess dev on inner by (simp add: query_sim_step double sim_respond_up)
  have up_res: "set_step_up P self name w = (Inr (True, Some v1, []), ?w1)"
    by (rule set_step_up_result [OF known up num(2)])
  have down: "query (respond P) ins ''ATT:ATTSetDown?'' ?w1 = (Inr (table d ! pos d), ?w2)"
  proof -
    have "sim_respond pf ?d1 ''ATT:ATTSetDown?'' = (Inr (table ?d1 ! (pos ?d1 - 1)), ?d1\<lparr>pos := pos ?d1 - 1\<rparr>)"
      using on inner by (intro sim_respond_down) simp_all
    then have "sim_respond pf ?d1 ''ATT:ATTSetDown?'' = (Inr (table d ! pos d), d)"
      by simp
    then show ?thesis
      using sess by (simp add: query_def double)
  qed
  have down_res: "set_step_down P self name ?w1 = (Inr (True, Some v0, []), ?w2)"
    by (rule set_step_down_result [OF known down num(1)])
  have restored: "devices ?w2 = devices w"
    using dev by (auto simp: fun_eq_iff)
  have "fst (query (respond P) ins ''ATT:ATTGetCurVal?'' ?w2)
          = fst (query (respond P) ins ''ATT:ATTGetCurVal?'' w)"
    using restored by (intro query_fst_cong) simp_all
  then have get2: "fst (get_att_value P self name ?w2) = Inr (True, Some v0, [])"
    using get0 by (simp add: get_att_value_known [OF known] query_float_cases)
  show ?thesis
    using get0 up_res down_res restored get2 by simp
qed

theorem step_up_down_round_trip_witness:
  "map_of (instruments two_units_ctl) ''att0'' = Some 0
   \<and> 0 < length (sessions two_units_ready)
   \<and> is_open (sessions two_units_ready ! 0)
   \<and> devices two_units_ready (resource_name (sessions two_units_ready ! 0))
       = Some (attenuator [''0'', ''5'', ''10''])
   \<and> respond bench = sim_respond fixed_float
   \<and> powered (attenuator [''0'', ''5'', ''10''])
   \<and> pos (attenuator [''0'', ''5'', ''10'']) + 1 < length (table (attenuator [''0'', ''5'', ''10'']))
   \<and> pyfloat bench ''0'' = Some 0
   \<and> pyfloat bench ''5'' = Some 5000000
   \<and> fst (get_att_value bench two_units_ctl ''att0'' two_units_ready) = Inr (True, Some 0, [])
   \<and> fst (set_step_up bench two_units_ctl ''att0'' two_units_ready)
       = Inr (True, Some 5000000, [])
   \<and> fst (set_step_down bench two_units_ctl ''att0''
            (snd (set_step_up bench two_units_ctl ''att0'' two_units_ready)))
       = Inr (True, Some 0, [])
   \<and> devices (snd (set_step_down bench two_units_ctl ''att0''
                 (snd (set_step_up bench two_units_ctl ''att0'' two_units_ready))))
       = devices two_units_ready"
  using step_up_down_round_trip
    [of two_units_ctl "''att0''" 0 two_units_ready "attenuator [''0'', ''5'', ''10'']" bench
        fixed_float 0 5000000]
  by (simp add: two_units_ctl_def ready_facts bench_def attenuator_def fixed_float_def
        is_digit_def nat_of_digits_def)

subsection \<open>Opening the sessions\<close>

lemma open_resource_attached:
  "devices w a = Some d \<Longrightarrow>
   open_resource a w =
     (Inr (length (sessions w)),
      w\<lparr>sessions := sessions w @
            [\<lparr>resource_name = a, is_open = True, read_termination = None, timeout = None\<rparr>]\<rparr>)"
  by (simp add: open_resource_def)

lemma open_resource_missing:
  "devices w a = None \<Longrightarrow> open_resource a w = (Inl VisaIOError, w)"
  by (simp add: open_resource_def)




subsection \<open>Settings and table queries keep the sessions\<close>

lemma map_update_same: "(map f xs)[u := f (xs ! u)] = map f xs"
proof (cases "u < length xs")
  case True
  then show ?thesis by (simp add: list_update_same_conv)
next
  case False
  then have "length (map f xs) \<le> u" by simp
  then show ?thesis by (rule list_update_beyond)
qed

lemma apply_settings_frame:
  "devices (apply_settings units lt tmo w) = devices w
   \<and> wire (apply_settings units lt tmo w) = wire w
   \<and> map resource_name (sessions (apply_settings units lt tmo w)) = map resource_name (sessions w)
   \<and> map is_open (sessions (apply_settings units lt tmo w)) = map is_open (sessions w)"
proof (induction units arbitrary: w)
  case Nil
  show ?case by simp
next
  case (Cons u units)
  let ?w1 = "w\<lparr>sessions := (sessions w)[u :=
             (sessions w ! u)\<lparr>read_termination := Some lt, timeout := Some tmo\<rparr>]\<rparr>"
  have "map resource_name (sessions ?w1) = map resource_name (sessions w)"
    by (simp add: map_update map_update_same)
  moreover have "map is_open (sessions ?w1) = map is_open (sessions w)"
    by (simp add: map_update map_update_same)
  ultimately show ?case using Cons.IH [of ?w1] by simp
qed

lemma map_eq_nth:
  "map f xs = map f ys \<Longrightarrow> i < length ys \<Longrightarrow> f (xs ! i) = f (ys ! i)"
  by (metis length_map nth_map)

lemma query_sessions: "sessions (snd (query rsp h cmd w)) = sessions w"
  by (simp add: query_def split: option.splits prod.splits)

lemma query_allowed_sessions: "sessions (snd (query_allowed rsp items acc w)) = sessions w"
proof (induction items arbitrary: acc w)
  case Nil
  show ?case by simp
next
  case (Cons item items)
  obtain name ins where item: "item = (name, ins)" by (cases item)
  obtain r w1 where q: "query rsp ins ''ATT:ATTTabGet?'' w = (r, w1)"
    by (cases "query rsp ins ''ATT:ATTTabGet?'' w")
  have w1: "sessions w1 = sessions w" using query_sessions [of rsp ins "''ATT:ATTTabGet?''" w] q by simp
  show ?case
  proof (cases r)
    case (Inl e)
    with item q w1 show ?thesis by simp
  next
    case (Inr resp)
    with item q w1 Cons.IH [of "dict_set acc name (split_comma resp)" w1] show ?thesis by simp
  qed
qed

subsection \<open>A failing table query\<close>




subsection \<open>What the opened sessions are bound to\<close>

lemma open_instruments_registry:
  assumes "open_instruments names rest acc w = (Inr ins, w')"
    and "distinct (map fst acc)"
    and "\<forall>k h. (k, h) \<in> set acc \<longrightarrow>
           h < length (sessions w) \<and> is_open (sessions w ! h) \<and>
           (\<exists>i. list_index names (resource_name (sessions w ! h)) = Some i
                \<and> k = ''att'' @ str_of_nat i)"
    and "\<forall>a\<in>A. \<exists>k h. (k, h) \<in> set acc \<and> resource_name (sessions w ! h) = a"
  shows "distinct (map fst ins)
       \<and> (\<forall>k h. (k, h) \<in> set ins \<longrightarrow>
             h < length (sessions w') \<and> is_open (sessions w' ! h) \<and>
             (\<exists>i. list_index names (resource_name (sessions w' ! h)) = Some i
                  \<and> k = ''att'' @ str_of_nat i))
       \<and> (\<forall>a\<in>A \<union> set rest. \<exists>k h. (k, h) \<in> set ins \<and> resource_name (sessions w' ! h) = a)
       \<and> devices w' = devices w"
  using assms
proof (induction rest arbitrary: acc w A)
  case Nil
  then show ?case by simp
next
  case (Cons b rest)
  let ?w1 = "w\<lparr>sessions := sessions w @
            [\<lparr>resource_name = b, is_open = True, read_termination = None, timeout = None\<rparr>]\<rparr>"
  let ?h = "length (sessions w)"
  obtain i where idx: "list_index names b = Some i"
    using Cons.prems(1) by (cases "list_index names b") simp_all
  have "devices w b \<noteq> None"
  proof
    assume "devices w b = None"
    with idx Cons.prems(1) show False by (simp add: open_resource_missing)
  qed
  then obtain d where d: "devices w b = Some d" by blast
  let ?key = "''att'' @ str_of_nat i"
  let ?acc1 = "dict_set acc ?key ?h"
  have run: "open_instruments names rest ?acc1 ?w1 = (Inr ins, w')"
    using Cons.prems(1) idx d by (simp add: open_resource_attached)
  have keys1: "distinct (map fst ?acc1)"
    using Cons.prems(2) by (rule dict_set_keys_distinct)
  have old: "sessions ?w1 ! h = sessions w ! h" if "h < length (sessions w)" for h
    using that by (simp add: nth_append)
  have good1: "\<forall>k h. (k, h) \<in> set ?acc1 \<longrightarrow>
           h < length (sessions ?w1) \<and> is_open (sessions ?w1 ! h) \<and>
           (\<exists>j. list_index names (resource_name (sessions ?w1 ! h)) = Some j
                \<and> k = ''att'' @ str_of_nat j)"
  proof (intro allI impI)
    fix k h assume "(k, h) \<in> set ?acc1"
    then have "(k, h) = (?key, ?h) \<or> (k, h) \<in> set acc"
      using dict_set_set [of acc ?key ?h] by auto
    then show "h < length (sessions ?w1) \<and> is_open (sessions ?w1 ! h) \<and>
           (\<exists>j. list_index names (resource_name (sessions ?w1 ! h)) = Some j
                \<and> k = ''att'' @ str_of_nat j)"
    proof
      assume "(k, h) = (?key, ?h)"
      with idx show ?thesis by simp
    next
      assume mem: "(k, h) \<in> set acc"
      with Cons.prems(3) have h: "h < length (sessions w)" by blast
      from mem Cons.prems(3) have "is_open (sessions w ! h) \<and>
           (\<exists>j. list_index names (resource_name (sessions w ! h)) = Some j
                \<and> k = ''att'' @ str_of_nat j)" by blast
      with h old [OF h] show ?thesis by simp
    qed
  qed
  have cov1: "\<forall>a\<in>insert b A. \<exists>k h. (k, h) \<in> set ?acc1 \<and> resource_name (sessions ?w1 ! h) = a"
  proof
    fix a assume "a \<in> insert b A"
    then show "\<exists>k h. (k, h) \<in> set ?acc1 \<and> resource_name (sessions ?w1 ! h) = a"
    proof
      assume "a = b"
      moreover have "(?key, ?h) \<in> set ?acc1" by (rule dict_set_has)
      moreover have "resource_name (sessions ?w1 ! ?h) = b" by simp
      ultimately show ?thesis by blast
    next
      assume "a \<in> A"
      with Cons.prems(4) obtain k h where mem: "(k, h) \<in> set acc"
        and addr: "resource_name (sessions w ! h) = a" by blast
      from mem Cons.prems(3) have h: "h < length (sessions w)" by blast
      from mem Cons.prems(3) addr obtain j where j: "list_index names a = Some j"
        and k: "k = ''att'' @ str_of_nat j" by blast
      show ?thesis
      proof (cases "k = ?key")
        case True
        with k have "j = i" by (simp add: str_of_nat_inj)
        with j idx have "a = b"
          using list_index_Some [of names a j] list_index_Some [of names b i] by simp
        moreover have "(?key, ?h) \<in> set ?acc1" by (rule dict_set_has)
        moreover have "resource_name (sessions ?w1 ! ?h) = b" by simp
        ultimately show ?thesis by blast
      next
        case False
        with mem have "(k, h) \<in> set ?acc1" by (rule dict_set_keeps)
        moreover have "resource_name (sessions ?w1 ! h) = a" using addr old [OF h] by simp
        ultimately show ?thesis by blast
      qed
    qed
  qed
  have "distinct (map fst ins)
       \<and> (\<forall>k h. (k, h) \<in> set ins \<longrightarrow>
             h < length (sessions w') \<and> is_open (sessions w' ! h) \<and>
             (\<exists>i. list_index names (resource_name (sessions w' ! h)) = Some i
                  \<and> k = ''att'' @ str_of_nat i))
       \<and> (\<forall>a\<in>insert b A \<union> set rest.
             \<exists>k h. (k, h) \<in> set ins \<and> resource_name (sessions w' ! h) = a)
       \<and> devices w' = devices ?w1"
    by (rule Cons.IH [OF run keys1 good1 cov1])
  then show ?case by simp
qed

subsection \<open>The constructor on distinct addresses\<close>

lemma open_instruments_distinct:
  assumes "distinct (pre @ rest)"
    and "open_instruments (pre @ rest) rest acc w = (Inr ins, w')"
    and "acc = map (\<lambda>i. (''att'' @ str_of_nat i, base + i)) [0..<length pre]"
    and "length (sessions w) = base + length pre"
  shows "ins = map (\<lambda>i. (''att'' @ str_of_nat i, base + i)) [0..<length (pre @ rest)]
       \<and> sessions w' = sessions w @
           map (\<lambda>a. \<lparr>resource_name = a, is_open = True, read_termination = None, timeout = None\<rparr>)
             rest"
  using assms
proof (induction rest arbitrary: pre acc w)
  case Nil
  then show ?case by simp
next
  case (Cons b rest)
  let ?key = "''att'' @ str_of_nat (length pre)"
  let ?w1 = "w\<lparr>sessions := sessions w @
            [\<lparr>resource_name = b, is_open = True, read_termination = None, timeout = None\<rparr>]\<rparr>"
  from Cons.prems(1) have fresh: "b \<notin> set pre" by auto
  then have idx: "list_index (pre @ b # rest) b = Some (length pre)"
    by (rule list_index_append_fresh)
  have attached: "devices w b \<noteq> None"
  proof
    assume "devices w b = None"
    with idx Cons.prems(2) show False by (simp add: open_resource_missing)
  qed
  then obtain d where d: "devices w b = Some d" by blast
  have "?key \<notin> fst ` set acc"
    using Cons.prems(3) by (auto simp: str_of_nat_inj)
  then have acc1: "dict_set acc ?key (length (sessions w)) = acc @ [(?key, length (sessions w))]"
    by (rule dict_set_fresh)
  have acc1': "acc @ [(?key, length (sessions w))]
      = map (\<lambda>i. (''att'' @ str_of_nat i, base + i)) [0..<length (pre @ [b])]"
    using Cons.prems(3,4) by simp
  have run: "open_instruments ((pre @ [b]) @ rest) rest (acc @ [(?key, length (sessions w))]) ?w1
      = (Inr ins, w')"
    using Cons.prems(2) idx d acc1 by (simp add: open_resource_attached)
  have "ins = map (\<lambda>i. (''att'' @ str_of_nat i, base + i)) [0..<length ((pre @ [b]) @ rest)]
       \<and> sessions w' = sessions ?w1 @
           map (\<lambda>a. \<lparr>resource_name = a, is_open = True, read_termination = None, timeout = None\<rparr>)
             rest"
  proof (rule Cons.IH [OF _ run acc1'])
    show "distinct ((pre @ [b]) @ rest)" using Cons.prems(1) by simp
    show "length (sessions ?w1) = base + length (pre @ [b])" using Cons.prems(4) by simp
  qed
  then show ?case by simp
qed

lemma RfControl_Inr:
  assumes "fst (RfControl P tmo lt w) = Inr self" and "list_resources w = Inr rs"
  obtains ins w1 allowed where
    "get_acm_ctrl_list rs \<noteq> []"
    "open_instruments (get_acm_ctrl_list rs) (get_acm_ctrl_list rs) [] (w\<lparr>mgr_open := True\<rparr>)
       = (Inr ins, w1)"
    "query_allowed (respond P) ins [] (apply_settings (map snd ins) lt tmo w1)
       = (Inr allowed, snd (RfControl P tmo lt w))"
    "self = \<lparr>resource_names = get_acm_ctrl_list rs, instruments = ins,
             att_values_allowed = allowed\<rparr>"
  using assms
  by (auto simp: RfControl_def Let_def split: if_splits prod.splits sum.splits)

text \<open>
  C4. An enumeration lists each device address once, so the k matching addresses are
  pairwise distinct. For every such enumeration on which the constructor returns a
  registry, \<^verbatim>\<open>get_instrument_names\<close> is exactly the list att0, att1, ..., att<k-1>, and the
  name with index i is bound to the session opened on the i-th matching address of the
  enumeration. In every registry the constructor returns, the names are pairwise distinct.
\<close>

theorem instrument_names_in_order:
  assumes lr: "list_resources w = Inr rs"
    and ok: "fst (RfControl P tmo lt w) = Inr self"
  shows "distinct (get_instrument_names self)
       \<and> (distinct (get_acm_ctrl_list rs) \<longrightarrow>
            get_instrument_names self
              = map (\<lambda>i. ''att'' @ str_of_nat i) [0..<length (get_acm_ctrl_list rs)]
          \<and> (\<forall>i<length (get_acm_ctrl_list rs).
                map_of (instruments self) (''att'' @ str_of_nat i)
                  = Some (length (sessions w) + i)
              \<and> resource_name (sessions (snd (RfControl P tmo lt w)) ! (length (sessions w) + i))
                  = get_acm_ctrl_list rs ! i))"
proof -
  let ?names = "get_acm_ctrl_list rs"
  let ?base = "length (sessions w)"
  let ?w' = "snd (RfControl P tmo lt w)"
  let ?new = "\<lambda>a. \<lparr>resource_name = a, is_open = True, read_termination = None, timeout = None\<rparr>"
  from ok lr obtain ins w1 allowed where
    opened: "open_instruments ?names ?names [] (w\<lparr>mgr_open := True\<rparr>) = (Inr ins, w1)"
    and queried: "query_allowed (respond P) ins [] (apply_settings (map snd ins) lt tmo w1)
       = (Inr allowed, ?w')"
    and self: "self = \<lparr>resource_names = ?names, instruments = ins, att_values_allowed = allowed\<rparr>"
    by (rule RfControl_Inr)
  have always: "distinct (get_instrument_names self)"
    using open_instruments_registry [OF opened, of "{}"]
    by (simp add: get_instrument_names_def self)
  have ordered: "get_instrument_names self
              = map (\<lambda>i. ''att'' @ str_of_nat i) [0..<length ?names]
          \<and> (\<forall>i<length ?names.
                map_of (instruments self) (''att'' @ str_of_nat i) = Some (?base + i)
              \<and> resource_name (sessions ?w' ! (?base + i)) = ?names ! i)"
    if dist: "distinct ?names"
  proof -
    have "ins = map (\<lambda>i. (''att'' @ str_of_nat i, ?base + i)) [0..<length ([] @ ?names)]
         \<and> sessions w1 = sessions (w\<lparr>mgr_open := True\<rparr>) @ map ?new ?names"
      by (rule open_instruments_distinct [where pre = "[]"]) (use dist opened in simp_all)
    then have ins: "ins = map (\<lambda>i. (''att'' @ str_of_nat i, ?base + i)) [0..<length ?names]"
      and w1: "sessions w1 = sessions w @ map ?new ?names"
      by simp_all
    have keys: "map fst ins = map (\<lambda>i. ''att'' @ str_of_nat i) [0..<length ?names]"
      by (simp add: ins comp_def)
    have dkeys: "distinct (map fst ins)"
      unfolding keys by (simp add: distinct_map inj_on_def str_of_nat_inj)
    have rn: "map resource_name (sessions ?w') = map resource_name (sessions w1)"
    proof -
      have "sessions ?w' = sessions (apply_settings (map snd ins) lt tmo w1)"
        using query_allowed_sessions [of "respond P" ins "[]" "apply_settings (map snd ins) lt tmo w1"]
          queried by simp
      then show ?thesis by (simp add: apply_settings_frame)
    qed
    have each: "map_of (instruments self) (''att'' @ str_of_nat i) = Some (?base + i)
             \<and> resource_name (sessions ?w' ! (?base + i)) = ?names ! i"
      if i: "i < length ?names" for i
    proof
      have "(''att'' @ str_of_nat i, ?base + i) \<in> set ins" using i by (auto simp: ins)
      with dkeys show "map_of (instruments self) (''att'' @ str_of_nat i) = Some (?base + i)"
        by (simp add: self)
      have "?base + i < length (sessions w1)" using i by (simp add: w1)
      with rn have "resource_name (sessions ?w' ! (?base + i))
          = resource_name (sessions w1 ! (?base + i))"
        by (rule map_eq_nth)
      also have "\<dots> = ?names ! i" using i by (simp add: w1 nth_append)
      finally show "resource_name (sessions ?w' ! (?base + i)) = ?names ! i" .
    qed
    show ?thesis
      using keys each by (simp add: get_instrument_names_def self)
  qed
  from always ordered show ?thesis by blast
qed

theorem instrument_names_in_order_witness:
  "list_resources two_units = Inr [''ASRL/dev/ttyS0::INSTR'', acm0, acm1]
   \<and> get_acm_ctrl_list [''ASRL/dev/ttyS0::INSTR'', acm0, acm1] = [acm0, acm1]
   \<and> distinct [acm0, acm1]
   \<and> fst (RfControl bench default_timeout default_line_termination two_units) = Inr two_units_ctl
   \<and> get_instrument_names two_units_ctl = [''att0'', ''att1'']
   \<and> map_of (instruments two_units_ctl) ''att0'' = Some 0
   \<and> resource_name (sessions two_units_ready ! 0) = acm0
   \<and> map_of (instruments two_units_ctl) ''att1'' = Some 1
   \<and> resource_name (sessions two_units_ready ! 1) = acm1"
proof -
  have acm: "get_acm_ctrl_list [''ASRL/dev/ttyS0::INSTR'', acm0, acm1] = [acm0, acm1]"
    by (simp add: get_acm_ctrl_list_def acm0_def acm1_def)
  have lr: "list_resources two_units = Inr [''ASRL/dev/ttyS0::INSTR'', acm0, acm1]"
    by (simp add: two_units_def lab_def)
  have dist: "distinct (get_acm_ctrl_list [''ASRL/dev/ttyS0::INSTR'', acm0, acm1])"
    by (simp add: acm) (simp add: acm0_def acm1_def)
  note order = instrument_names_in_order [OF lr two_units_boot, THEN conjunct2, THEN mp, OF dist]
  have names: "get_instrument_names two_units_ctl = [''att0'', ''att1'']"
    using order by (simp add: acm str_of_nat.simps digit_char_def)
  have first: "map_of (instruments two_units_ctl) ''att0'' = Some 0
      \<and> resource_name (sessions two_units_ready ! 0) = acm0"
    using order [THEN conjunct2, rule_format, of 0]
    by (simp add: acm str_of_nat.simps digit_char_def two_units_ready_def two_units_def lab_def)
  have second: "map_of (instruments two_units_ctl) ''att1'' = Some 1
      \<and> resource_name (sessions two_units_ready ! 1) = acm1"
    using order [THEN conjunct2, rule_format, of 1]
    by (simp add: acm str_of_nat.simps digit_char_def two_units_ready_def two_units_def lab_def)
  have "distinct [acm0, acm1]" using dist by (simp add: acm)
  with acm lr two_units_boot names first second show ?thesis by simp
qed

subsection \<open>A constructor that fails\<close>







end
